theory Spec2Isabelle
  imports Main "HOL-Library.Word"
begin

section \<open>The C environment of dumb\_ptr.h\<close>

text \<open>
  Pointers are addresses, with \<open>0\<close> for \<open>NULL\<close>. A \<open>destructor_t\<close> is a function
  pointer; it is modelled by the address of the function, again with \<open>0\<close> for \<open>NULL\<close>.
\<close>

type_synonym addr = nat
type_synonym destructor_t = nat

text \<open>
  A live \<open>malloc\<close> block either holds a \<open>uint32_t\<close> that has been stored into it, or
  bytes the component never reads (a fresh block, or the caller's payload).
\<close>

datatype block = Opaque | U32 "32 word"

text \<open>
  Every call that leaves the component is recorded, in program order: \<open>malloc\<close> with the
  pointer it returned, \<open>free\<close> with its argument, and a destructor call with the function
  and its argument.
\<close>

datatype event = Malloc addr | Free addr | Destructor destructor_t addr

text \<open>Undefined behaviour of the C program is an error value of the model.\<close>

datatype error = InvalidAccess | InvalidFree

record mem =
  blocks :: "addr \<rightharpoonup> block"
  trace :: "event list"

definition then_do :: "error + 'a \<Rightarrow> ('a \<Rightarrow> error + 'b) \<Rightarrow> error + 'b" where
  "then_do x f = (case x of Inl e \<Rightarrow> Inl e | Inr v \<Rightarrow> f v)"

text \<open>
  \<open>malloc(sizeof(uint32_t))\<close>. The allocator belongs to the environment: \<open>r\<close> is the
  pointer it answers with, \<open>0\<close> when it has no memory. A successful call makes the block
  at \<open>r\<close> live, with indeterminate contents. An allocator never answers with a block
  that is live already; where a property depends on it, this is a hypothesis on \<open>r\<close>.
\<close>

definition malloc :: "addr \<Rightarrow> mem \<Rightarrow> addr \<times> mem" where
  "malloc r m =
     (r, m\<lparr>blocks := (if r = 0 then blocks m else (blocks m)(r \<mapsto> Opaque)),
           trace := trace m @ [Malloc r]\<rparr>)"

text \<open>\<open>free(p)\<close>: nothing happens for \<open>NULL\<close>; freeing what is not a live block is undefined.\<close>

definition free :: "addr \<Rightarrow> mem \<Rightarrow> error + mem" where
  "free p m =
     (if p = 0 then Inr (m\<lparr>trace := trace m @ [Free p]\<rparr>)
      else if blocks m p = None then Inl InvalidFree
      else Inr (m\<lparr>blocks := (blocks m)(p := None), trace := trace m @ [Free p]\<rparr>))"

text \<open>Reading \<open>*p\<close> as a \<open>uint32_t\<close>: \<open>p\<close> must be a live block that holds one.\<close>

definition load_u32 :: "addr \<Rightarrow> mem \<Rightarrow> error + 32 word" where
  "load_u32 p m =
     (if p = 0 then Inl InvalidAccess
      else case blocks m p of Some (U32 w) \<Rightarrow> Inr w | _ \<Rightarrow> Inl InvalidAccess)"

text \<open>Writing \<open>*p = v\<close>: \<open>p\<close> must be a live block.\<close>

definition store_u32 :: "addr \<Rightarrow> 32 word \<Rightarrow> mem \<Rightarrow> error + mem" where
  "store_u32 p v m =
     (if p = 0 \<or> blocks m p = None then Inl InvalidAccess
      else Inr (m\<lparr>blocks := (blocks m)(p \<mapsto> U32 v)\<rparr>))"

text \<open>
  A call \<open>f(p)\<close> through a destructor pointer. The body of the destructor is the caller's
  code; the model records the call and its argument.
\<close>

definition call_destructor :: "destructor_t \<Rightarrow> addr \<Rightarrow> mem \<Rightarrow> mem" where
  "call_destructor f p m = m\<lparr>trace := trace m @ [Destructor f p]\<rparr>"

section \<open>The shared pointer\<close>

text \<open>\<open>struct shared_ptr\<close>, field by field.\<close>

record shared_ptr =
  refcount :: addr
  ptr :: addr
  ptr_destructor :: destructor_t

text \<open>
  \<open>shared_ptr_init(this, ptr, ptr_destructor)\<close>. The struct behind \<open>this\<close> is passed in
  and returned; \<open>r\<close> is the answer of the one \<open>malloc\<close> call. The two fields are written
  before the allocation, and \<open>refcount\<close> receives whatever \<open>malloc\<close> returned.
\<close>

definition shared_ptr_init ::
    "addr \<Rightarrow> shared_ptr \<Rightarrow> addr \<Rightarrow> destructor_t \<Rightarrow> mem \<Rightarrow> error + (bool \<times> shared_ptr \<times> mem)" where
  "shared_ptr_init r this p d m =
     (let this1 = this\<lparr>ptr := p\<rparr>;
          this2 = this1\<lparr>ptr_destructor := d\<rparr>;
          (q, m1) = malloc r m;
          this3 = this2\<lparr>refcount := q\<rparr>
      in if refcount this3 = 0 then Inr (False, this3, m1)
         else then_do (store_u32 (refcount this3) 1 m1) (\<lambda>m2. Inr (True, this3, m2)))"

text \<open>
  \<open>shared_ptr_copy(this, that)\<close>: two fields of \<open>this\<close> are assigned, then the counter is
  incremented through the new \<open>this->refcount\<close>. \<open>that\<close> itself is only read, and
  \<open>ptr_destructor\<close> is not mentioned by the function. When both pointers are the same
  struct the two assignments change nothing, as here.
\<close>

definition shared_ptr_copy :: "shared_ptr \<Rightarrow> shared_ptr \<Rightarrow> mem \<Rightarrow> error + (shared_ptr \<times> mem)" where
  "shared_ptr_copy this that m =
     (let this1 = this\<lparr>ptr := ptr that\<rparr>;
          this2 = this1\<lparr>refcount := refcount that\<rparr>
      in then_do (load_u32 (refcount this2) m) (\<lambda>c.
         then_do (store_u32 (refcount this2) (c + 1) m) (\<lambda>m1.
         Inr (this2, m1))))"

text \<open>
  \<open>shared_ptr_cleanup(this)\<close>: decrement, read the counter back, and on zero free the
  counter, call the destructor when the field is not \<open>NULL\<close>, and free the payload, in the
  order of the source.
\<close>

definition shared_ptr_cleanup :: "shared_ptr \<Rightarrow> mem \<Rightarrow> error + mem" where
  "shared_ptr_cleanup this m =
     then_do (load_u32 (refcount this) m) (\<lambda>c.
     then_do (store_u32 (refcount this) (c - 1) m) (\<lambda>m1.
     then_do (load_u32 (refcount this) m1) (\<lambda>c1.
       if c1 = 0 then
         then_do (free (refcount this) m1) (\<lambda>m2.
           let m3 = (if ptr_destructor this \<noteq> 0
                     then call_destructor (ptr_destructor this) (ptr this) m2 else m2)
           in free (ptr this) m3)
       else Inr m1)))"


section \<open>Handles in scope\<close>

text \<open>
  The callers of the header keep their \<open>shared_ptr_t\<close> structs in variables and pass
  their addresses. A world is the contents of these variables, by variable number, and
  the heap. A variable that was never initialised holds whatever it held before.
\<close>

record world =
  vars :: "nat \<Rightarrow> shared_ptr"
  heap :: mem

text \<open>\<open>shared_ptr_init(&v_h, p, d)\<close>, with the \<open>bool\<close> it returns.\<close>

definition construct ::
    "addr \<Rightarrow> nat \<Rightarrow> addr \<Rightarrow> destructor_t \<Rightarrow> world \<Rightarrow> error + (bool \<times> world)" where
  "construct r h p d w =
     then_do (shared_ptr_init r (vars w h) p d (heap w)) (\<lambda>(ok, t, m).
       Inr (ok, w\<lparr>vars := (vars w)(h := t), heap := m\<rparr>))"

text \<open>
  \<open>Copy dst src\<close> is \<open>shared_ptr_copy(&v_dst, &v_src)\<close>; \<open>Cleanup h\<close> is the call
  \<open>shared_ptr_cleanup(&v_h)\<close> that the \<open>cleanup\<close> attribute makes when \<open>v_h\<close> leaves
  its scope.
\<close>

datatype op = Copy nat nat | Cleanup nat

fun exec :: "op \<Rightarrow> world \<Rightarrow> error + world" where
  "exec (Copy dst src) w =
     then_do (shared_ptr_copy (vars w dst) (vars w src) (heap w)) (\<lambda>(t, m).
       Inr (w\<lparr>vars := (vars w)(dst := t), heap := m\<rparr>))"
| "exec (Cleanup h) w =
     then_do (shared_ptr_cleanup (vars w h) (heap w)) (\<lambda>m. Inr (w\<lparr>heap := m\<rparr>))"

fun run :: "op list \<Rightarrow> world \<Rightarrow> error + world" where
  "run [] w = Inr w"
| "run (x # xs) w = then_do (exec x w) (run xs)"

text \<open>The counter of the group, read through the variable \<open>h\<close>.\<close>

definition counter_of :: "world \<Rightarrow> nat \<Rightarrow> error + 32 word" where
  "counter_of w h = load_u32 (refcount (vars w h)) (heap w)"

definition counter_after :: "op list \<Rightarrow> world \<Rightarrow> nat \<Rightarrow> error + 32 word" where
  "counter_after ops w h = then_do (run ops w) (\<lambda>w'. counter_of w' h)"

definition trace_after :: "op list \<Rightarrow> world \<Rightarrow> error + event list" where
  "trace_after ops w = then_do (run ops w) (\<lambda>w'. Inr (trace (heap w')))"

text \<open>
  The live handles of a group are the variables that were constructed or copied into and
  have not been cleaned up yet. \<open>live_after\<close> follows them through a list of operations.
\<close>

fun live_after :: "nat list \<Rightarrow> op list \<Rightarrow> nat list" where
  "live_after L [] = L"
| "live_after L (Copy dst src # xs) = live_after (dst # L) xs"
| "live_after L (Cleanup h # xs) = live_after (removeAll h L) xs"

text \<open>
  The call discipline of the header: a copy is made from a live handle into a variable
  that is not one, and only a live handle is cleaned up (so at most once).
\<close>

fun disciplined :: "nat list \<Rightarrow> op list \<Rightarrow> bool" where
  "disciplined L [] = True"
| "disciplined L (Copy dst src # xs) =
     (src \<in> set L \<and> dst \<notin> set L \<and> disciplined (dst # L) xs)"
| "disciplined L (Cleanup h # xs) = (h \<in> set L \<and> disciplined (removeAll h L) xs)"

text \<open>The largest number of handles that are live at the same time.\<close>

fun max_live :: "nat list \<Rightarrow> op list \<Rightarrow> nat" where
  "max_live L [] = length L"
| "max_live L (Copy dst src # xs) = max (length L) (max_live (dst # L) xs)"
| "max_live L (Cleanup h # xs) = max (length L) (max_live (removeAll h L) xs)"

text \<open>\<open>n\<close> copies of the variable \<open>0\<close>, into the variables \<open>1\<close> to \<open>n\<close>.\<close>

definition shares :: "nat \<Rightarrow> op list" where
  "shares n = map (\<lambda>i. Copy (Suc i) 0) [0..<n]"

text \<open>
  A concrete start: every variable zeroed, one payload block at address \<open>20\<close>; and the
  world after \<open>shared_ptr_init(&v_0, 20, 7)\<close> whose \<open>malloc\<close> returned \<open>10\<close>.
\<close>

definition world0 :: world where
  "world0 = \<lparr>vars = (\<lambda>_. \<lparr>refcount = 0, ptr = 0, ptr_destructor = 0\<rparr>),
             heap = \<lparr>blocks = [20 \<mapsto> Opaque], trace = []\<rparr>\<rparr>"

definition world1 :: world where
  "world1 = \<lparr>vars = (\<lambda>_. \<lparr>refcount = 0, ptr = 0, ptr_destructor = 0\<rparr>)
                     (0 := \<lparr>refcount = 10, ptr = 20, ptr_destructor = 7\<rparr>),
             heap = \<lparr>blocks = [20 \<mapsto> Opaque, 10 \<mapsto> U32 1], trace = [Malloc 10]\<rparr>\<rparr>"

text \<open>
  The state of one group, for the live handles \<open>L\<close>, the counter at \<open>r\<close> and the
  payload at \<open>p\<close>: every live handle points to both, the counter holds the number of
  live handles, the payload can still be freed, and once no handle is live the counter
  storage is gone.
\<close>

definition group_inv :: "addr \<Rightarrow> addr \<Rightarrow> nat list \<Rightarrow> world \<Rightarrow> bool" where
  "group_inv r p L w \<longleftrightarrow>
     distinct L \<and> r \<noteq> 0 \<and> r \<noteq> p \<and> length L < 2 ^ 32 \<and>
     (\<forall>h \<in> set L. refcount (vars w h) = r \<and> ptr (vars w h) = p) \<and>
     (L \<noteq> [] \<longrightarrow> blocks (heap w) r = Some (U32 (of_nat (length L))) \<and>
                 (p = 0 \<or> blocks (heap w) p \<noteq> None)) \<and>
     (L = [] \<longrightarrow> blocks (heap w) r = None)"

section \<open>Properties of the three operations\<close>

lemma then_do_Inr [simp]: "then_do (Inr v) f = f v"
  by (simp add: then_do_def)

lemma then_do_Inl [simp]: "then_do (Inl e) f = Inl e"
  by (simp add: then_do_def)

lemma load_u32_live: "load_u32 p m = Inr c \<Longrightarrow> p \<noteq> 0 \<and> blocks m p = Some (U32 c)"
  by (auto simp: load_u32_def split: if_splits option.splits block.splits)

lemma construct_world0: "construct 10 0 20 7 world0 = Inr (True, world1)"
  by (simp add: construct_def shared_ptr_init_def malloc_def store_u32_def world0_def world1_def)

text \<open>
  C7. A successful \<open>shared_ptr_init\<close> (the allocation of the counter did not return
  \<open>NULL\<close>) returns \<open>true\<close>; the handle holds the payload pointer and the destructor that
  were passed, and the counter it points to is 1.
\<close>

theorem init_success_counter_one:
  assumes "r \<noteq> 0"
  shows "shared_ptr_init r this p d m =
           Inr (True, \<lparr>refcount = r, ptr = p, ptr_destructor = d\<rparr>,
                m\<lparr>blocks := (blocks m)(r \<mapsto> U32 1), trace := trace m @ [Malloc r]\<rparr>)
         \<and> load_u32 r (m\<lparr>blocks := (blocks m)(r \<mapsto> U32 1), trace := trace m @ [Malloc r]\<rparr>) = Inr 1"
  using assms
  by (cases this) (simp add: shared_ptr_init_def malloc_def store_u32_def load_u32_def)

theorem init_success_counter_one_witness:
  "shared_ptr_init 10 \<lparr>refcount = 0, ptr = 0, ptr_destructor = 0\<rparr> 20 7
       \<lparr>blocks = [20 \<mapsto> Opaque], trace = []\<rparr> =
     Inr (True, \<lparr>refcount = 10, ptr = 20, ptr_destructor = 7\<rparr>,
          \<lparr>blocks = [20 \<mapsto> Opaque, 10 \<mapsto> U32 1], trace = [Malloc 10]\<rparr>)"
  using init_success_counter_one [of 10 "\<lparr>refcount = 0, ptr = 0, ptr_destructor = 0\<rparr>" 20 7
      "\<lparr>blocks = [20 \<mapsto> Opaque], trace = []\<rparr>"]
  by simp

text \<open>
  C8. When the allocation of the counter fails, \<open>shared_ptr_init\<close> returns \<open>false\<close>; the
  live blocks of the heap and their contents are as before, the payload among them, and
  the only call made is the failed \<open>malloc\<close>: nothing is freed.
\<close>

theorem init_failure_heap_untouched:
  "\<exists>t m'. shared_ptr_init 0 this p d m = Inr (False, t, m') \<and>
          blocks m' = blocks m \<and> trace m' = trace m @ [Malloc 0]"
  by (simp add: shared_ptr_init_def malloc_def)

text \<open>
  C3, as stated, fails: a failed \<open>shared_ptr_init\<close> has already assigned \<open>ptr\<close> and
  \<open>ptr_destructor\<close>, and stores the \<open>NULL\<close> it got from \<open>malloc\<close> in \<open>refcount\<close>. A cell
  that held 5, 6, 7 holds 0, 20, 8 afterwards.
\<close>

theorem init_failure_mutates_cell:
  "shared_ptr_init 0 \<lparr>refcount = 5, ptr = 6, ptr_destructor = 7\<rparr> 20 8
       \<lparr>blocks = [20 \<mapsto> Opaque], trace = []\<rparr> =
     Inr (False, \<lparr>refcount = 0, ptr = 20, ptr_destructor = 8\<rparr>,
          \<lparr>blocks = [20 \<mapsto> Opaque], trace = [Malloc 0]\<rparr>)
   \<and> \<lparr>refcount = 0, ptr = 20, ptr_destructor = 8\<rparr>
       \<noteq> \<lparr>refcount = 5, ptr = 6, ptr_destructor = 7\<rparr>"
  by (simp add: shared_ptr_init_def malloc_def)

text \<open>
  C3, amended. When the allocation of the counter fails, \<open>shared_ptr_init\<close> returns
  \<open>false\<close> and every field of the cell has been written: \<open>ptr\<close> and \<open>ptr_destructor\<close>
  hold the arguments, \<open>refcount\<close> is \<open>NULL\<close>. The heap is not changed: the live blocks
  and their contents are as before, and the only call made is the failed \<open>malloc\<close>.
\<close>

theorem init_failure_cell_fields:
  "shared_ptr_init 0 this p d m =
     Inr (False, \<lparr>refcount = 0, ptr = p, ptr_destructor = d\<rparr>,
          m\<lparr>trace := trace m @ [Malloc 0]\<rparr>)
   \<and> blocks (m\<lparr>trace := trace m @ [Malloc 0]\<rparr>) = blocks m"
  by (cases this) (simp add: shared_ptr_init_def malloc_def)



text \<open>
  C6, as stated, fails at the largest counter value: a group whose counter is
  \<open>2^32 - 1\<close> is live, and \<open>shared_ptr_copy\<close> leaves its counter at 0.
\<close>

theorem copy_at_max_counter:
  "shared_ptr_copy \<lparr>refcount = 0, ptr = 0, ptr_destructor = 0\<rparr>
       \<lparr>refcount = 10, ptr = 20, ptr_destructor = 7\<rparr>
       \<lparr>blocks = [20 \<mapsto> Opaque, 10 \<mapsto> U32 4294967295], trace = []\<rparr> =
     Inr (\<lparr>refcount = 10, ptr = 20, ptr_destructor = 0\<rparr>,
          \<lparr>blocks = [20 \<mapsto> Opaque, 10 \<mapsto> U32 0], trace = []\<rparr>)"
proof -
  have wrap: "(4294967296 :: 32 word) = 0"
    by simp
  show ?thesis
    by (simp add: shared_ptr_copy_def load_u32_def store_u32_def wrap)
qed

text \<open>
  C6, amended. For a handle whose counter is live and below \<open>2^32 - 1\<close>,
  \<open>shared_ptr_copy\<close> succeeds, makes no call to the allocator (or any other call), leaves
  the set of live blocks as it was, raises the counter by exactly 1, and gives the new
  handle the payload pointer and the counter of the source.
\<close>

theorem copy_increments_counter:
  assumes "load_u32 (refcount that) m = Inr c" and "unat c < 2 ^ 32 - 1"
  shows "\<exists>t m' c'. shared_ptr_copy this that m = Inr (t, m') \<and>
           trace m' = trace m \<and> dom (blocks m') = dom (blocks m) \<and>
           load_u32 (refcount that) m' = Inr c' \<and> unat c' = unat c + 1 \<and>
           ptr t = ptr that \<and> refcount t = refcount that"
proof -
  from assms(2) have "unat c + unat (1 :: 32 word) < 2 ^ LENGTH(32)"
    by simp
  then have "unat (c + 1) = unat c + 1"
    by (simp add: unat_add_lem [THEN iffD1])
  moreover have "insert (refcount that) (dom (blocks m)) = dom (blocks m)"
    using load_u32_live [OF assms(1)] by auto
  ultimately show ?thesis
    using load_u32_live [OF assms(1)] assms(1)
    by (simp add: shared_ptr_copy_def store_u32_def load_u32_def)
qed

theorem copy_increments_counter_witness:
  "load_u32 (refcount \<lparr>refcount = 10, ptr = 20, ptr_destructor = 7\<rparr>)
       \<lparr>blocks = [20 \<mapsto> Opaque, 10 \<mapsto> U32 1], trace = []\<rparr> = Inr 1
   \<and> unat (1 :: 32 word) < 2 ^ 32 - 1
   \<and> (\<exists>t m' c'. shared_ptr_copy \<lparr>refcount = 0, ptr = 0, ptr_destructor = 0\<rparr>
                \<lparr>refcount = 10, ptr = 20, ptr_destructor = 7\<rparr>
                \<lparr>blocks = [20 \<mapsto> Opaque, 10 \<mapsto> U32 1], trace = []\<rparr> = Inr (t, m') \<and>
              trace m' = [] \<and> dom (blocks m') = {20, 10} \<and>
              load_u32 10 m' = Inr c' \<and> unat c' = 2 \<and> ptr t = 20 \<and> refcount t = 10)"
proof -
  have h: "load_u32 (refcount \<lparr>refcount = 10, ptr = 20, ptr_destructor = 7\<rparr>)
       \<lparr>blocks = [20 \<mapsto> Opaque, 10 \<mapsto> U32 1], trace = []\<rparr> = Inr 1"
    by (simp add: load_u32_def)
  have b: "unat (1 :: 32 word) < 2 ^ 32 - 1"
    by simp
  show ?thesis
    using h b copy_increments_counter [OF h b, of "\<lparr>refcount = 0, ptr = 0, ptr_destructor = 0\<rparr>"]
    by (auto simp: insert_commute)
qed

text \<open>
  C9. When the counter of the handle holds \<open>n > 1\<close>, \<open>shared_ptr_cleanup\<close> stores
  \<open>n - 1\<close> and does nothing else: no call to \<open>free\<close> and no destructor call is made,
  and the live blocks are the same, the counter and the payload among them.
\<close>

theorem cleanup_above_one_only_decrements:
  assumes "load_u32 (refcount this) m = Inr n" and "1 < unat n"
  shows "shared_ptr_cleanup this m = Inr (m\<lparr>blocks := (blocks m)(refcount this \<mapsto> U32 (n - 1))\<rparr>)
         \<and> unat (n - 1) = unat n - 1
         \<and> trace (m\<lparr>blocks := (blocks m)(refcount this \<mapsto> U32 (n - 1))\<rparr>) = trace m
         \<and> dom (blocks (m\<lparr>blocks := (blocks m)(refcount this \<mapsto> U32 (n - 1))\<rparr>)) = dom (blocks m)"
proof -
  have live: "refcount this \<noteq> 0" "blocks m (refcount this) = Some (U32 n)"
    using load_u32_live [OF assms(1)] by simp_all
  have "1 \<le> n"
    using assms(2) by (simp add: word_le_nat_alt)
  then have dec: "unat (n - 1) = unat n - 1"
    by (simp add: unat_sub)
  with assms(2) have "unat (n - 1) \<noteq> 0"
    by simp
  then have nz: "n - 1 \<noteq> 0"
    by auto
  have "insert (refcount this) (dom (blocks m)) = dom (blocks m)"
    using live by auto
  then show ?thesis
    using live nz dec assms(1)
    by (simp add: shared_ptr_cleanup_def store_u32_def load_u32_def)
qed

theorem cleanup_above_one_only_decrements_witness:
  "load_u32 (refcount \<lparr>refcount = 10, ptr = 20, ptr_destructor = 7\<rparr>)
       \<lparr>blocks = [20 \<mapsto> Opaque, 10 \<mapsto> U32 2], trace = [Malloc 10]\<rparr> = Inr 2
   \<and> 1 < unat (2 :: 32 word)
   \<and> shared_ptr_cleanup \<lparr>refcount = 10, ptr = 20, ptr_destructor = 7\<rparr>
        \<lparr>blocks = [20 \<mapsto> Opaque, 10 \<mapsto> U32 2], trace = [Malloc 10]\<rparr> =
      Inr \<lparr>blocks = [20 \<mapsto> Opaque, 10 \<mapsto> U32 1], trace = [Malloc 10]\<rparr>"
proof -
  have h: "load_u32 (refcount \<lparr>refcount = 10, ptr = 20, ptr_destructor = 7\<rparr>)
       \<lparr>blocks = [20 \<mapsto> Opaque, 10 \<mapsto> U32 2], trace = [Malloc 10]\<rparr> = Inr 2"
    by (simp add: load_u32_def)
  have b: "1 < unat (2 :: 32 word)"
    by simp
  show ?thesis
    using h b cleanup_above_one_only_decrements [OF h b]
    by simp
qed

text \<open>
  C10. The counter is a \<open>uint32_t\<close> and both updates wrap modulo \<open>2^32\<close>: on a counter
  that holds \<open>2^32 - 1\<close>, \<open>shared_ptr_copy\<close> stores 0; on a counter that holds 0,
  \<open>shared_ptr_cleanup\<close> stores \<open>2^32 - 1\<close> and, the result not being 0, frees nothing.
\<close>

theorem counter_wraps_modulo_2_32:
  "(load_u32 (refcount that) m = Inr 4294967295 \<longrightarrow>
      (\<exists>t m'. shared_ptr_copy this that m = Inr (t, m') \<and>
               load_u32 (refcount that) m' = Inr 0))
   \<and> (load_u32 (refcount this) m = Inr 0 \<longrightarrow>
      (\<exists>m'. shared_ptr_cleanup this m = Inr m' \<and>
             load_u32 (refcount this) m' = Inr 4294967295 \<and> trace m' = trace m))
   \<and> unat (4294967295 :: 32 word) = 2 ^ 32 - 1"
proof -
  have wrap: "(4294967296 :: 32 word) = 0"
    by simp
  have up: "\<exists>t m'. shared_ptr_copy this that m = Inr (t, m') \<and>
               load_u32 (refcount that) m' = Inr 0"
    if "load_u32 (refcount that) m = Inr 4294967295"
    using load_u32_live [OF that] that
    by (simp add: shared_ptr_copy_def store_u32_def load_u32_def wrap)
  have down: "\<exists>m'. shared_ptr_cleanup this m = Inr m' \<and>
             load_u32 (refcount this) m' = Inr 4294967295 \<and> trace m' = trace m"
    if "load_u32 (refcount this) m = Inr 0"
    using load_u32_live [OF that] that
    by (simp add: shared_ptr_cleanup_def store_u32_def load_u32_def)
  show ?thesis
    using up down by simp
qed

theorem counter_wraps_modulo_2_32_witness:
  "load_u32 10 \<lparr>blocks = [20 \<mapsto> Opaque, 10 \<mapsto> U32 4294967295], trace = []\<rparr> = Inr 4294967295
   \<and> (\<exists>t m'. shared_ptr_copy \<lparr>refcount = 0, ptr = 0, ptr_destructor = 0\<rparr>
                \<lparr>refcount = 10, ptr = 20, ptr_destructor = 7\<rparr>
                \<lparr>blocks = [20 \<mapsto> Opaque, 10 \<mapsto> U32 4294967295], trace = []\<rparr> = Inr (t, m') \<and>
              load_u32 10 m' = Inr 0)
   \<and> load_u32 10 \<lparr>blocks = [20 \<mapsto> Opaque, 10 \<mapsto> U32 0], trace = []\<rparr> = Inr 0
   \<and> (\<exists>m'. shared_ptr_cleanup \<lparr>refcount = 10, ptr = 20, ptr_destructor = 7\<rparr>
                \<lparr>blocks = [20 \<mapsto> Opaque, 10 \<mapsto> U32 0], trace = []\<rparr> = Inr m' \<and>
              load_u32 10 m' = Inr 4294967295 \<and> trace m' = [])"
proof -
  have h1: "load_u32 10 \<lparr>blocks = [20 \<mapsto> Opaque, 10 \<mapsto> U32 4294967295], trace = []\<rparr>
              = Inr 4294967295"
    by (simp add: load_u32_def)
  have h2: "load_u32 10 \<lparr>blocks = [20 \<mapsto> Opaque, 10 \<mapsto> U32 0], trace = []\<rparr> = Inr 0"
    by (simp add: load_u32_def)
  show ?thesis
    using h1 h2
      counter_wraps_modulo_2_32 [of "\<lparr>refcount = 10, ptr = 20, ptr_destructor = 7\<rparr>"
        "\<lparr>blocks = [20 \<mapsto> Opaque, 10 \<mapsto> U32 4294967295], trace = []\<rparr>"
        "\<lparr>refcount = 0, ptr = 0, ptr_destructor = 0\<rparr>"]
      counter_wraps_modulo_2_32 [of "\<lparr>refcount = 10, ptr = 20, ptr_destructor = 7\<rparr>"
        "\<lparr>blocks = [20 \<mapsto> Opaque, 10 \<mapsto> U32 0], trace = []\<rparr>"
        "\<lparr>refcount = 10, ptr = 20, ptr_destructor = 7\<rparr>"]
    by simp
qed

text \<open>
  C2, as stated, fails: on the call that brings the counter to 0, the counter storage is
  the first thing freed, before the destructor runs and before the payload is freed.
\<close>

theorem cleanup_frees_counter_first:
  "map_sum id trace
     (shared_ptr_cleanup \<lparr>refcount = 10, ptr = 20, ptr_destructor = 7\<rparr>
        \<lparr>blocks = [20 \<mapsto> Opaque, 10 \<mapsto> U32 1], trace = []\<rparr>)
     = Inr [Free 10, Destructor 7 20, Free 20]
   \<and> map_sum id trace
     (shared_ptr_cleanup \<lparr>refcount = 10, ptr = 20, ptr_destructor = 7\<rparr>
        \<lparr>blocks = [20 \<mapsto> Opaque, 10 \<mapsto> U32 1], trace = []\<rparr>)
     \<noteq> Inr [Destructor 7 20, Free 20, Free 10]"
  by (simp add: shared_ptr_cleanup_def load_u32_def store_u32_def free_def call_destructor_def)

lemma cleanup_to_zero_calls:
  assumes "load_u32 (refcount this) m = Inr 1"
    and "ptr this = 0 \<or> (blocks m (ptr this) \<noteq> None \<and> ptr this \<noteq> refcount this)"
  shows "\<exists>m'. shared_ptr_cleanup this m = Inr m' \<and>
           trace m' = trace m @ [Free (refcount this)]
             @ (if ptr_destructor this \<noteq> 0
                then [Destructor (ptr_destructor this) (ptr this)] else [])
             @ [Free (ptr this)] \<and>
           blocks m' (refcount this) = None \<and>
           (ptr this \<noteq> 0 \<longrightarrow> blocks m' (ptr this) = None)"
  using load_u32_live [OF assms(1)] assms
  by (auto simp: shared_ptr_cleanup_def store_u32_def load_u32_def free_def call_destructor_def)

section \<open>Sequences of copies and cleanups\<close>

lemma run_append: "run (xs @ ys) w = then_do (run xs w) (run ys)"
  by (induction xs arbitrary: w) (auto simp: then_do_def split: sum.splits)

lemma live_after_append: "live_after L (xs @ ys) = live_after (live_after L xs) ys"
  by (induction L xs rule: live_after.induct) auto

lemma disciplined_append:
  "disciplined L (xs @ ys) \<longleftrightarrow> disciplined L xs \<and> disciplined (live_after L xs) ys"
  by (induction L xs rule: disciplined.induct) auto

lemma max_live_ge: "length L \<le> max_live L xs"
  by (induction L xs rule: max_live.induct) auto

lemma u32_of_nat_unat: "n < 2 ^ 32 \<Longrightarrow> unat (of_nat n :: 32 word) = n"
  by (simp add: unat_of_nat)

lemma u32_of_nat_pred: "0 < n \<Longrightarrow> (of_nat n :: 32 word) - 1 = of_nat (n - 1)"
  by (cases n) simp_all

lemma u32_of_nat_zero: "(of_nat n :: 32 word) = 0 \<longleftrightarrow> n = 0" if "n < 2 ^ 32"
proof
  assume "(of_nat n :: 32 word) = 0"
  then have "unat (of_nat n :: 32 word) = 0"
    by simp
  then show "n = 0"
    using that u32_of_nat_unat [of n] by simp
next
  assume "n = 0"
  then show "(of_nat n :: 32 word) = 0"
    by simp
qed

lemma length_removeAll_distinct:
  "distinct L \<Longrightarrow> h \<in> set L \<Longrightarrow> length (removeAll h L) = length L - 1"
  by (simp add: distinct_remove1_removeAll [symmetric] length_remove1)

lemma exec_copy_inv:
  assumes "group_inv r p L w" and "src \<in> set L" and "dst \<notin> set L"
    and "Suc (length L) < 2 ^ 32"
  shows "\<exists>w'. exec (Copy dst src) w = Inr w' \<and> group_inv r p (dst # L) w'"
proof -
  have ne: "L \<noteq> []"
    using assms(2) by auto
  have src: "refcount (vars w src) = r" "ptr (vars w src) = p"
    using assms(1,2) by (simp_all add: group_inv_def)
  have cnt: "blocks (heap w) r = Some (U32 (of_nat (length L)))" "r \<noteq> 0"
    using assms(1) ne by (simp_all add: group_inv_def)
  let ?m = "(heap w)\<lparr>blocks := (blocks (heap w))(r \<mapsto> U32 (of_nat (length L) + 1))\<rparr>"
  let ?t = "(vars w dst)\<lparr>ptr := p, refcount := r\<rparr>"
  have step: "exec (Copy dst src) w = Inr (w\<lparr>vars := (vars w)(dst := ?t), heap := ?m\<rparr>)"
    using src cnt by (simp add: shared_ptr_copy_def load_u32_def store_u32_def)
  have "group_inv r p (dst # L) (w\<lparr>vars := (vars w)(dst := ?t), heap := ?m\<rparr>)"
    using assms ne by (auto simp: group_inv_def)
  with step show ?thesis
    by blast
qed

lemma cleanup_not_last:
  assumes "load_u32 (refcount this) m = Inr n" and "n - 1 \<noteq> 0"
  shows "shared_ptr_cleanup this m = Inr (m\<lparr>blocks := (blocks m)(refcount this \<mapsto> U32 (n - 1))\<rparr>)"
  using load_u32_live [OF assms(1)] assms
  by (simp add: shared_ptr_cleanup_def store_u32_def load_u32_def)

lemma cleanup_last:
  assumes "load_u32 (refcount this) m = Inr n" and "n - 1 = 0"
    and "ptr this = 0 \<or> (blocks m (ptr this) \<noteq> None \<and> ptr this \<noteq> refcount this)"
  shows "\<exists>m'. shared_ptr_cleanup this m = Inr m' \<and> blocks m' (refcount this) = None"
  using load_u32_live [OF assms(1)] assms
  by (auto simp: shared_ptr_cleanup_def store_u32_def load_u32_def free_def call_destructor_def)

lemma exec_cleanup_inv:
  assumes "group_inv r p L w" and "h \<in> set L"
  shows "\<exists>w'. exec (Cleanup h) w = Inr w' \<and> group_inv r p (removeAll h L) w'"
proof -
  have ne: "L \<noteq> []" and pos: "0 < length L"
    using assms(2) by auto
  have hd: "refcount (vars w h) = r" "ptr (vars w h) = p"
    using assms by (simp_all add: group_inv_def)
  have cnt: "blocks (heap w) r = Some (U32 (of_nat (length L)))" "r \<noteq> 0" "r \<noteq> p"
    and pay: "p = 0 \<or> blocks (heap w) p \<noteq> None"
    and bound: "length L < 2 ^ 32" and dist: "distinct L"
    using assms(1) ne by (simp_all add: group_inv_def)
  have len: "length (removeAll h L) = length L - 1"
    using dist assms(2) by (rule length_removeAll_distinct)
  have ld: "load_u32 (refcount (vars w h)) (heap w) = Inr (of_nat (length L))"
    using hd cnt by (simp add: load_u32_def)
  have dec: "(of_nat (length L) :: 32 word) - 1 = of_nat (length L - 1)"
    using pos by (rule u32_of_nat_pred)
  have zero: "(of_nat (length L - 1) :: 32 word) = 0 \<longleftrightarrow> length L = 1"
  proof -
    have "length L - 1 < 2 ^ 32"
      using bound by simp
    then have "(of_nat (length L - 1) :: 32 word) = 0 \<longleftrightarrow> length L - 1 = 0"
      by (rule u32_of_nat_zero)
    moreover have "length L - 1 = 0 \<longleftrightarrow> length L = 1"
      using pos by arith
    ultimately show ?thesis
      by (simp only:)
  qed
  show ?thesis
  proof (cases "length L = 1")
    case True
    then have last: "removeAll h L = []"
      using len by simp
    have "(of_nat (length L) :: 32 word) - 1 = 0"
      unfolding dec using zero True by blast
    from cleanup_last [OF ld this] hd pay cnt(3)
    have "\<exists>m'. shared_ptr_cleanup (vars w h) (heap w) = Inr m' \<and> blocks m' r = None"
      by auto
    then obtain m' where m': "shared_ptr_cleanup (vars w h) (heap w) = Inr m'"
        "blocks m' r = None"
      by blast
    then have "exec (Cleanup h) w = Inr (w\<lparr>heap := m'\<rparr>)"
      by simp
    moreover have "group_inv r p [] (w\<lparr>heap := m'\<rparr>)"
      using cnt m'(2) by (simp add: group_inv_def)
    ultimately show ?thesis
      using last by auto
  next
    case False
    then have "0 < length (removeAll h L)"
      using len pos by arith
    then have rest: "removeAll h L \<noteq> []"
      by (cases "removeAll h L") simp_all
    let ?m = "(heap w)\<lparr>blocks := (blocks (heap w))(r \<mapsto> U32 (of_nat (length L - 1)))\<rparr>"
    have "(of_nat (length L) :: 32 word) - 1 \<noteq> 0"
      unfolding dec using zero False by blast
    from cleanup_not_last [OF ld this]
    have "shared_ptr_cleanup (vars w h) (heap w) = Inr ?m"
      by (simp only: hd dec)
    then have step: "exec (Cleanup h) w = Inr (w\<lparr>heap := ?m\<rparr>)"
      by simp
    have "group_inv r p (removeAll h L) (w\<lparr>heap := ?m\<rparr>)"
      using assms(1) rest len pay cnt by (auto simp: group_inv_def distinct_removeAll)
    with step show ?thesis
      by blast
  qed
qed

lemma run_keeps_inv:
  "group_inv r p L w \<Longrightarrow> disciplined L xs \<Longrightarrow> max_live L xs < 2 ^ 32 \<Longrightarrow>
   \<exists>w'. run xs w = Inr w' \<and> group_inv r p (live_after L xs) w'"
proof (induction xs arbitrary: L w)
  case Nil
  then show ?case by simp
next
  case (Cons x xs)
  show ?case
  proof (cases x)
    case (Copy dst src)
    have "Suc (length L) \<le> max_live (dst # L) xs"
      using max_live_ge [of "dst # L" xs] by simp
    with Cons.prems(3) Copy have small: "Suc (length L) < 2 ^ 32" "max_live (dst # L) xs < 2 ^ 32"
      by simp_all
    obtain w1 where w1: "exec (Copy dst src) w = Inr w1" "group_inv r p (dst # L) w1"
      using exec_copy_inv [OF Cons.prems(1) _ _ small(1), of src dst] Cons.prems(2) Copy
      by auto
    from Cons.IH [OF w1(2) _ small(2)] Cons.prems(2) Copy w1(1) show ?thesis
      by simp
  next
    case (Cleanup h)
    obtain w1 where w1: "exec (Cleanup h) w = Inr w1" "group_inv r p (removeAll h L) w1"
      using exec_cleanup_inv [OF Cons.prems(1), of h] Cons.prems(2) Cleanup
      by auto
    from Cons.IH [OF w1(2)] Cons.prems(2,3) Cleanup w1(1) show ?thesis
      by simp
  qed
qed

lemma init_success_counter_one_aux:
  "r \<noteq> 0 \<Longrightarrow> shared_ptr_init r this p d m =
           Inr (True, \<lparr>refcount = r, ptr = p, ptr_destructor = d\<rparr>,
                m\<lparr>blocks := (blocks m)(r \<mapsto> U32 1), trace := trace m @ [Malloc r]\<rparr>)"
  by (cases this) (simp add: shared_ptr_init_def malloc_def store_u32_def)

lemma construct_establishes_inv:
  assumes "construct r h0 p d w0 = Inr (True, w1)"
    and "blocks (heap w0) r = None" and "p = 0 \<or> blocks (heap w0) p \<noteq> None"
  shows "group_inv r p [h0] w1"
proof -
  have r: "r \<noteq> 0"
    using assms(1)
    by (auto simp: construct_def shared_ptr_init_def malloc_def split: if_splits)
  then have "w1 = w0\<lparr>vars := (vars w0)(h0 := \<lparr>refcount = r, ptr = p, ptr_destructor = d\<rparr>),
      heap := (heap w0)\<lparr>blocks := (blocks (heap w0))(r \<mapsto> U32 1),
                        trace := trace (heap w0) @ [Malloc r]\<rparr>\<rparr>"
    using assms(1) init_success_counter_one_aux [of r "vars w0 h0" p d "heap w0"]
    by (simp add: construct_def)
  then show ?thesis
    using r assms(2,3) by (auto simp: group_inv_def)
qed

lemma construct_True:
  assumes "construct r h0 p d w0 = Inr (True, w1)"
  shows "r \<noteq> 0" and "vars w1 h0 = \<lparr>refcount = r, ptr = p, ptr_destructor = d\<rparr>"
proof -
  show r: "r \<noteq> 0"
    using assms
    by (auto simp: construct_def shared_ptr_init_def malloc_def split: if_splits)
  then show "vars w1 h0 = \<lparr>refcount = r, ptr = p, ptr_destructor = d\<rparr>"
    using assms init_success_counter_one_aux [of r "vars w0 h0" p d "heap w0"]
    by (auto simp: construct_def)
qed

lemma exec_keeps_destructor:
  "exec x w = Inr w' \<Longrightarrow> ptr_destructor (vars w' h) = ptr_destructor (vars w h)"
  by (cases x) (auto simp: shared_ptr_copy_def then_do_def Let_def split: sum.splits)

lemma run_keeps_destructor:
  "run xs w = Inr w' \<Longrightarrow> ptr_destructor (vars w' h) = ptr_destructor (vars w h)"
proof (induction xs arbitrary: w)
  case Nil
  then show ?case by simp
next
  case (Cons x xs)
  then obtain w1 where w1: "exec x w = Inr w1" "run xs w1 = Inr w'"
    by (auto simp: then_do_def split: sum.splits)
  from Cons.IH [OF w1(2)] exec_keeps_destructor [OF w1(1)] show ?case
    by simp
qed

text \<open>
  C2, amended. Take a group built by a successful \<open>shared_ptr_init\<close> on the variable
  \<open>h0\<close>, with the finalizer \<open>d\<close> (\<open>NULL\<close> when none is supplied), a fresh counter block
  \<open>r\<close> and a payload \<open>p\<close> that can be freed (\<open>NULL\<close>, or a live block), used under the
  call discipline with fewer than \<open>2^32\<close> handles live at once, until \<open>h0\<close> is the only
  live handle. The counter is then 1, and the cleanup of \<open>h0\<close>, the release that brings
  it to 0, makes on that one call and in this order: \<open>free\<close> of the counter storage,
  then the call of the finalizer \<open>d\<close> with the payload address if \<open>d\<close> is present, then
  \<open>free\<close> of the payload. Afterwards neither block is live. Nothing is said about a last
  release made through a copy.
\<close>

theorem last_release_order:
  assumes "construct r h0 p d w0 = Inr (True, w1)"
    and "blocks (heap w0) r = None"
    and "p = 0 \<or> blocks (heap w0) p \<noteq> None"
    and "disciplined [h0] xs"
    and "max_live [h0] xs < 2 ^ 32"
    and "live_after [h0] xs = [h0]"
  shows "\<exists>w w'. run xs w1 = Inr w \<and> counter_of w h0 = Inr 1 \<and>
           exec (Cleanup h0) w = Inr w' \<and>
           trace (heap w') = trace (heap w) @ [Free r]
             @ (if d \<noteq> 0 then [Destructor d p] else [])
             @ [Free p] \<and>
           blocks (heap w') r = None \<and>
           (p \<noteq> 0 \<longrightarrow> blocks (heap w') p = None)"
proof -
  have start: "group_inv r p [h0] w1"
    using assms(1-3) by (rule construct_establishes_inv)
  obtain w where w: "run xs w1 = Inr w" "group_inv r p (live_after [h0] xs) w"
    using run_keeps_inv [OF start assms(4,5)] by blast
  have inv: "group_inv r p [h0] w"
    using w(2) assms(6) by simp
  have "ptr_destructor (vars w h0) = ptr_destructor (vars w1 h0)"
    using w(1) by (rule run_keeps_destructor)
  then have fld: "ptr_destructor (vars w h0) = d"
    using construct_True(2) [OF assms(1)] by simp
  have hd: "refcount (vars w h0) = r" "ptr (vars w h0) = p"
    and r: "r \<noteq> 0" "r \<noteq> p"
    and cnt: "blocks (heap w) r = Some (U32 1)"
    and pay: "p = 0 \<or> blocks (heap w) p \<noteq> None"
    using inv by (simp_all add: group_inv_def)
  have one: "load_u32 (refcount (vars w h0)) (heap w) = Inr 1"
    using hd r cnt by (simp add: load_u32_def)
  have free_ok: "ptr (vars w h0) = 0 \<or>
      (blocks (heap w) (ptr (vars w h0)) \<noteq> None \<and> ptr (vars w h0) \<noteq> refcount (vars w h0))"
    using hd r pay by auto
  obtain m' where m': "shared_ptr_cleanup (vars w h0) (heap w) = Inr m'"
      "trace m' = trace (heap w) @ [Free r] @ (if d \<noteq> 0 then [Destructor d p] else [])
         @ [Free p]"
      "blocks m' r = None" "p \<noteq> 0 \<longrightarrow> blocks m' p = None"
    using cleanup_to_zero_calls [OF one free_ok] hd fld by auto
  have "exec (Cleanup h0) w = Inr (w\<lparr>heap := m'\<rparr>)"
    using m'(1) by simp
  moreover have "counter_of w h0 = Inr 1"
    using one by (simp add: counter_of_def)
  ultimately show ?thesis
    using w(1) m'(2-4) by auto
qed

theorem last_release_order_witness:
  "construct 10 0 20 7 world0 = Inr (True, world1)
   \<and> blocks (heap world0) 10 = None
   \<and> blocks (heap world0) 20 \<noteq> None
   \<and> disciplined [0] [Copy 1 0, Cleanup 1]
   \<and> max_live [0] [Copy 1 0, Cleanup 1] < 2 ^ 32
   \<and> live_after [0] [Copy 1 0, Cleanup 1] = [0]
   \<and> (\<exists>w w'. run [Copy 1 0, Cleanup 1] world1 = Inr w \<and> counter_of w 0 = Inr 1 \<and>
         exec (Cleanup 0) w = Inr w' \<and>
         trace (heap w') = trace (heap w) @ [Free 10, Destructor 7 20, Free 20] \<and>
         blocks (heap w') 10 = None \<and> blocks (heap w') 20 = None)"
proof -
  have a: "construct 10 0 20 7 world0 = Inr (True, world1)"
    by (rule construct_world0)
  have b: "blocks (heap world0) 10 = None"
    by (simp add: world0_def)
  have c: "20 = (0 :: nat) \<or> blocks (heap world0) 20 \<noteq> None"
    by (simp add: world0_def)
  have d: "disciplined [0] [Copy 1 0, Cleanup 1]"
    by simp
  have e: "max_live [0] [Copy 1 0, Cleanup 1] < 2 ^ 32"
    by simp
  have f: "live_after [0] [Copy 1 0, Cleanup 1] = [0]"
    by simp
  show ?thesis
    using a b c d e f last_release_order [OF a b c d e f]
    by simp
qed

lemma disciplined_prefix: "disciplined L (xs @ ys) \<Longrightarrow> disciplined L xs"
  by (simp add: disciplined_append)

lemma max_live_prefix: "max_live L xs \<le> max_live L (xs @ ys)"
  by (induction L xs rule: max_live.induct) (auto simp: max_live_ge le_max_iff_disj)

text \<open>
  C5, amended. After a successful \<open>shared_ptr_init\<close> whose counter block is fresh and
  whose payload can be freed, take any sequence of copies and cleanups that follows the
  discipline (copies from live handles into other variables, cleanups of live handles
  only) and never has \<open>2^32\<close> or more handles live at once. At every point of the
  sequence the operations so far ran without undefined behaviour, and the counter read
  through any live handle equals the number of live handles.
\<close>

theorem counter_counts_live_handles:
  assumes "construct r h0 p d w0 = Inr (True, w1)"
    and "blocks (heap w0) r = None"
    and "p = 0 \<or> blocks (heap w0) p \<noteq> None"
    and "disciplined [h0] (xs @ ys)"
    and "max_live [h0] (xs @ ys) < 2 ^ 32"
  shows "\<exists>w. run xs w1 = Inr w \<and> distinct (live_after [h0] xs) \<and>
           (\<forall>h \<in> set (live_after [h0] xs).
              \<exists>c. counter_of w h = Inr c \<and> unat c = length (live_after [h0] xs))"
proof -
  have start: "group_inv r p [h0] w1"
    using assms(1-3) by (rule construct_establishes_inv)
  have disc: "disciplined [h0] xs"
    using assms(4) by (rule disciplined_prefix)
  have small: "max_live [h0] xs < 2 ^ 32"
    using max_live_prefix [of "[h0]" xs ys] assms(5) by simp
  obtain w where w: "run xs w1 = Inr w" "group_inv r p (live_after [h0] xs) w"
    using run_keeps_inv [OF start disc small] by blast
  let ?L = "live_after [h0] xs"
  have "\<exists>c. counter_of w h = Inr c \<and> unat c = length ?L" if "h \<in> set ?L" for h
  proof -
    have ne: "?L \<noteq> []"
      using that by auto
    have "refcount (vars w h) = r" "r \<noteq> 0" "length ?L < 2 ^ 32"
      "blocks (heap w) r = Some (U32 (of_nat (length ?L)))"
      using w(2) that ne by (simp_all add: group_inv_def)
    then have "counter_of w h = Inr (of_nat (length ?L))"
      "unat (of_nat (length ?L) :: 32 word) = length ?L"
      by (simp_all add: counter_of_def load_u32_def u32_of_nat_unat)
    then show ?thesis
      by blast
  qed
  moreover have "distinct ?L"
    using w(2) by (simp add: group_inv_def)
  ultimately show ?thesis
    using w(1) by blast
qed

theorem counter_counts_live_handles_witness:
  "construct 10 0 20 7 world0 = Inr (True, world1)
   \<and> blocks (heap world0) 10 = None
   \<and> blocks (heap world0) 20 \<noteq> None
   \<and> disciplined [0] ([Copy 1 0, Cleanup 0] @ [Cleanup 1])
   \<and> max_live [0] ([Copy 1 0, Cleanup 0] @ [Cleanup 1]) < 2 ^ 32
   \<and> live_after [0] [Copy 1 0, Cleanup 0] = [1]
   \<and> (\<exists>w. run [Copy 1 0, Cleanup 0] world1 = Inr w \<and>
            (\<exists>c. counter_of w 1 = Inr c \<and> unat c = 1))"
proof -
  have a: "construct 10 0 20 7 world0 = Inr (True, world1)"
    by (rule construct_world0)
  have b: "blocks (heap world0) 10 = None"
    by (simp add: world0_def)
  have c: "20 = (0 :: nat) \<or> blocks (heap world0) 20 \<noteq> None"
    by (simp add: world0_def)
  have d: "disciplined [0] ([Copy 1 0, Cleanup 0] @ [Cleanup 1])"
    by simp
  have e: "max_live [0] ([Copy 1 0, Cleanup 0] @ [Cleanup 1]) < 2 ^ 32"
    by simp
  have f: "live_after [0] [Copy 1 0, Cleanup 0] = [1]"
    by simp
  show ?thesis
    using a b c d e f counter_counts_live_handles [OF a b c d e]
    by simp
qed

lemma shares_Suc: "shares (Suc n) = shares n @ [Copy (Suc n) 0]"
  by (simp add: shares_def)

lemma live_after_shares: "live_after [0] (shares n) = rev [0..<Suc n]"
proof (induction n)
  case 0
  then show ?case by (simp add: shares_def)
next
  case (Suc n)
  then show ?case by (simp add: shares_Suc live_after_append)
qed

lemma disciplined_shares: "disciplined [0] (shares n)"
proof (induction n)
  case 0
  then show ?case by (simp add: shares_def)
next
  case (Suc n)
  then show ?case by (auto simp: shares_Suc disciplined_append live_after_shares)
qed

lemma run_shares:
  "\<exists>w. run (shares n) world1 = Inr w \<and>
        vars w 0 = \<lparr>refcount = 10, ptr = 20, ptr_destructor = 7\<rparr> \<and>
        blocks (heap w) 10 = Some (U32 (of_nat (Suc n)))"
proof (induction n)
  case 0
  then show ?case by (simp add: shares_def world1_def)
next
  case (Suc n)
  then obtain w where w: "run (shares n) world1 = Inr w"
      "vars w 0 = \<lparr>refcount = 10, ptr = 20, ptr_destructor = 7\<rparr>"
      "blocks (heap w) 10 = Some (U32 (of_nat (Suc n)))"
    by blast
  have "(of_nat (Suc n) :: 32 word) + 1 = of_nat (Suc (Suc n))"
    by simp
  then show ?case
    using w
    by (simp add: shares_Suc run_append shared_ptr_copy_def load_u32_def store_u32_def
        del: of_nat_Suc)
qed

lemma counter_after_shares: "counter_after (shares n) world1 0 = Inr (of_nat (Suc n))"
proof -
  obtain w where w: "run (shares n) world1 = Inr w"
      "vars w 0 = \<lparr>refcount = 10, ptr = 20, ptr_destructor = 7\<rparr>"
      "blocks (heap w) 10 = Some (U32 (of_nat (Suc n)))"
    using run_shares [of n] by blast
  then show ?thesis
    by (simp add: counter_after_def counter_of_def load_u32_def del: of_nat_Suc)
qed

text \<open>
  C5, as stated, fails once \<open>2^32\<close> handles are live: after a successful construction
  and \<open>2^32 - 1\<close> copies of the first handle into \<open>2^32 - 1\<close> other variables, with no
  cleanup, all \<open>2^32\<close> handles are live and the counter they share holds 0.
\<close>

theorem counter_zero_with_live_handles:
  "construct 10 0 20 7 world0 = Inr (True, world1)
   \<and> disciplined [0] (shares 4294967295)
   \<and> distinct (live_after [0] (shares 4294967295))
   \<and> length (live_after [0] (shares 4294967295)) = 4294967296
   \<and> counter_after (shares 4294967295) world1 0 = Inr 0"
proof -
  have "(of_nat (Suc 4294967295) :: 32 word) = 0"
    by simp
  then have "counter_after (shares 4294967295) world1 0 = Inr 0"
    using counter_after_shares [of 4294967295] by (simp only:)
  moreover have "length (live_after [0] (shares 4294967295)) = 4294967296"
    by (simp only: live_after_shares length_rev length_upt)
  moreover have "distinct (live_after [0] (shares 4294967295))"
    by (simp only: live_after_shares distinct_rev distinct_upt)
  ultimately show ?thesis
    using construct_world0 disciplined_shares [of 4294967295] by (simp only: simp_thms)
qed

text \<open>
  C1, evaluated on the code. One handle is constructed with the destructor 7 and copied
  once into a zeroed variable. When the original is cleaned up first and the copy last,
  the counter and the payload are freed and no destructor call is made: the copy's
  \<open>ptr_destructor\<close> was never assigned. In the other order the destructor runs once,
  on the last cleanup.
\<close>

theorem copy_released_last_skips_destructor:
  "construct 10 0 20 7 world0 = Inr (True, world1)
   \<and> trace_after [Copy 1 0, Cleanup 0, Cleanup 1] world1 = Inr [Malloc 10, Free 10, Free 20]
   \<and> trace_after [Copy 1 0, Cleanup 1, Cleanup 0] world1
       = Inr [Malloc 10, Free 10, Destructor 7 20, Free 20]"
  by (simp add: construct_world0 trace_after_def world1_def shared_ptr_copy_def
      shared_ptr_cleanup_def load_u32_def store_u32_def free_def call_destructor_def)

end
